theory Spec2Isabelle
  imports Complex_Main
begin

section \<open>BIO-OPT: the multi-objective notebook (BIO-OPT-MOO.ipynb)\<close>

text \<open>
  The notebook reads a spreadsheet into a data frame, keeps the rows with a positive
  NPV, filters the (GWP, NPV) pairs for dominance and prints three representative rows
  of the front. A number of the table (a double or a 64-bit integer of pandas, NaN
  apart) is the \<^typ>\<open>real\<close> it denotes: the dominance filter, \<^verbatim>\<open>min\<close>, \<^verbatim>\<open>max\<close>,
  \<^verbatim>\<open>argmin\<close> and \<^verbatim>\<open>argmax\<close> only compare and test equality, which is exact. The
  distance to the ideal point is computed by scipy in machine arithmetic and is not
  exact; it is a parameter of the model, with double arithmetic as one instance.
\<close>

subsection \<open>Python errors\<close>

datatype py_error = ValueError | IndexError | KeyError | TypeError | AttributeError | AssertionError

subsection \<open>The data frame and the feasibility filter\<close>

text \<open>
  One row of \<^verbatim>\<open>df\<close>, by the columns the notebook reads: 0, 1 and 2 (the
  percentages), 15 (GWP) and 19 (NPV).
\<close>

record df_row =
  bioethanol_percent :: real
  vanillin_percent :: real
  furfural_percent :: real
  GWP :: real
  NPV :: real

type_synonym point = "real \<times> real"

type_synonym data_point = "real \<times> real \<times> real \<times> real \<times> real"

text \<open>
  \<^verbatim>\<open>filtered_data = [(gwp, npv, bioethanol_percent[i], vanillin_percent[i], furfural_percent[i])
                   for i, (gwp, npv) in enumerate(zip(GWP, NPV)) if npv > 0]\<close>
\<close>

definition filtered_data :: "df_row list \<Rightarrow> data_point list" where
  "filtered_data df =
     map (\<lambda>r. (GWP r, NPV r, bioethanol_percent r, vanillin_percent r, furfural_percent r))
       (filter (\<lambda>r. NPV r > 0) df)"

definition GWP_filtered :: "data_point list \<Rightarrow> real list" where
  "GWP_filtered fd = map (\<lambda>(g, n, b, v, f). g) fd"

definition NPV_filtered :: "data_point list \<Rightarrow> real list" where
  "NPV_filtered fd = map (\<lambda>(g, n, b, v, f). n) fd"

definition bioethanol_filtered :: "data_point list \<Rightarrow> real list" where
  "bioethanol_filtered fd = map (\<lambda>(g, n, b, v, f). b) fd"

definition vanillin_filtered :: "data_point list \<Rightarrow> real list" where
  "vanillin_filtered fd = map (\<lambda>(g, n, b, v, f). v) fd"

definition furfural_filtered :: "data_point list \<Rightarrow> real list" where
  "furfural_filtered fd = map (\<lambda>(g, n, b, v, f). f) fd"

definition filtered_points :: "data_point list \<Rightarrow> point list" where
  "filtered_points fd = zip (GWP_filtered fd) (NPV_filtered fd)"

subsection \<open>The dominance filter\<close>

text \<open>
  \<^verbatim>\<open>def is_dominated(point, others):
      for other in others:
          if (other[0] <= point[0] and other[1] >= point[1]) and (other != point):
              return True
      return False\<close>
  The inequality \<^verbatim>\<open>other != point\<close> compares the two tuples by value.
\<close>

fun is_dominated :: "point \<Rightarrow> point list \<Rightarrow> bool" where
  "is_dominated point [] = False"
| "is_dominated point (other # others) =
     (if (fst other \<le> fst point \<and> snd other \<ge> snd point) \<and> other \<noteq> point then True
      else is_dominated point others)"

text \<open>
  \<^verbatim>\<open>pareto_front = [point for point in filtered_points
                  if not is_dominated(point, filtered_points)]\<close>
\<close>

definition pareto_front :: "point list \<Rightarrow> point list" where
  "pareto_front pts = filter (\<lambda>point. \<not> is_dominated point pts) pts"

text \<open>
  The comprehension walks the positions of its input in order, so the scenario at
  position \<open>i\<close> reaches the output exactly when it passes the test. The positions kept:
\<close>

definition front_positions :: "point list \<Rightarrow> nat list" where
  "front_positions pts = filter (\<lambda>i. \<not> is_dominated (pts ! i) pts) [0..<length pts]"

subsection \<open>The dominance rule as the specification words it\<close>

text \<open>
  Section 4.5 of the specification: scenario \<open>a\<close> dominates scenario \<open>b\<close> iff
  \<open>a.gwp \<le> b.gwp\<close>, \<open>a.npv \<ge> b.npv\<close> and \<open>a\<close> is not identical to \<open>b\<close>, the identity
  being that of the scenario (its position in the input), not the equality of values.
\<close>

definition spec_dominates :: "point list \<Rightarrow> nat \<Rightarrow> nat \<Rightarrow> bool" where
  "spec_dominates pts a b \<longleftrightarrow>
     fst (pts ! a) \<le> fst (pts ! b) \<and> snd (pts ! a) \<ge> snd (pts ! b) \<and> a \<noteq> b"

text \<open>The rule the code applies: the same comparison, the two value pairs being different.\<close>

definition value_dominates :: "point \<Rightarrow> point \<Rightarrow> bool" where
  "value_dominates p q \<longleftrightarrow> fst p \<le> fst q \<and> snd p \<ge> snd q \<and> p \<noteq> q"

subsection \<open>The reported table\<close>

text \<open>
  \<^verbatim>\<open>list.index(x)\<close>: the position of the first element equal to \<open>x\<close>; ValueError
  when there is none.
\<close>

fun list_index :: "'a list \<Rightarrow> 'a \<Rightarrow> py_error + nat" where
  "list_index [] v = Inl ValueError"
| "list_index (x # xs) v =
     (if x = v then Inr 0
      else (case list_index xs v of Inl e \<Rightarrow> Inl e | Inr i \<Rightarrow> Inr (Suc i)))"

text \<open>\<^verbatim>\<open>optimal_indices = [filtered_points.index(ind) for ind in pareto_front]\<close>\<close>

fun optimal_indices :: "point list \<Rightarrow> point list \<Rightarrow> py_error + nat list" where
  "optimal_indices pts [] = Inr []"
| "optimal_indices pts (ind # front) =
     (case list_index pts ind of
        Inl e \<Rightarrow> Inl e
      | Inr i \<Rightarrow> (case optimal_indices pts front of Inl e \<Rightarrow> Inl e | Inr idxs \<Rightarrow> Inr (i # idxs)))"

text \<open>
  \<^verbatim>\<open>[column[idx] for idx in optimal_indices]\<close>; an index past the end raises
  IndexError (the indices are never negative here).
\<close>

fun take_at :: "'a list \<Rightarrow> nat list \<Rightarrow> py_error + 'a list" where
  "take_at column [] = Inr []"
| "take_at column (idx # idxs) =
     (if idx < length column
      then (case take_at column idxs of Inl e \<Rightarrow> Inl e | Inr vs \<Rightarrow> Inr (column ! idx # vs))
      else Inl IndexError)"

record pareto_row =
  Total_GWP :: real
  Total_NPV :: real
  Bioethanol_pct :: real
  Vanillin_pct :: real
  Furfural_pct :: real

text \<open>
  \<^verbatim>\<open>pd.DataFrame({...})\<close> from five lists: one row per position; pandas raises
  ValueError when the lists differ in length.
\<close>

definition data_frame ::
  "real list \<Rightarrow> real list \<Rightarrow> real list \<Rightarrow> real list \<Rightarrow> real list \<Rightarrow> py_error + pareto_row list" where
  "data_frame g n b v f =
     (if length n = length g \<and> length b = length g \<and> length v = length g \<and> length f = length g
      then Inr (map (\<lambda>i. \<lparr>Total_GWP = g ! i, Total_NPV = n ! i, Bioethanol_pct = b ! i,
                          Vanillin_pct = v ! i, Furfural_pct = f ! i\<rparr>) [0..<length g])
      else Inl ValueError)"

definition pareto_GWP :: "point list \<Rightarrow> real list" where
  "pareto_GWP front = map (\<lambda>point. fst point) front"

definition pareto_NPV :: "point list \<Rightarrow> real list" where
  "pareto_NPV front = map (\<lambda>point. snd point) front"

text \<open>The cells from \<^verbatim>\<open>filtered_data\<close> to \<^verbatim>\<open>pareto_df\<close>, in order.\<close>

definition pareto_df :: "df_row list \<Rightarrow> py_error + pareto_row list" where
  "pareto_df df =
     (let fd = filtered_data df;
          pts = filtered_points fd;
          front = pareto_front pts
      in case optimal_indices pts front of
           Inl e \<Rightarrow> Inl e
         | Inr idxs \<Rightarrow>
             (case take_at (bioethanol_filtered fd) idxs of
                Inl e \<Rightarrow> Inl e
              | Inr pareto_bioethanol \<Rightarrow>
                  (case take_at (vanillin_filtered fd) idxs of
                     Inl e \<Rightarrow> Inl e
                   | Inr pareto_vanillin \<Rightarrow>
                       (case take_at (furfural_filtered fd) idxs of
                          Inl e \<Rightarrow> Inl e
                        | Inr pareto_furfural \<Rightarrow>
                            data_frame (pareto_GWP front) (pareto_NPV front)
                              pareto_bioethanol pareto_vanillin pareto_furfural))))"

text \<open>\<^verbatim>\<open>pareto_df.iloc[i]\<close> for an index that is not negative.\<close>

definition iloc :: "'a list \<Rightarrow> nat \<Rightarrow> py_error + 'a" where
  "iloc rows i = (if i < length rows then Inr (rows ! i) else Inl IndexError)"

subsection \<open>The representative rows\<close>

text \<open>
  \<^verbatim>\<open>np.argmin\<close> and \<^verbatim>\<open>np.argmax\<close> are numpy's: the index of the first occurrence
  of the least (greatest) element, ValueError on an empty sequence. They are written
  as the scan that keeps the best element seen so far and replaces it only by a
  strictly better one.
\<close>

fun argmin_from :: "'a::linorder list \<Rightarrow> nat \<Rightarrow> nat \<Rightarrow> 'a \<Rightarrow> nat" where
  "argmin_from [] i best_i best = best_i"
| "argmin_from (x # xs) i best_i best =
     (if x < best then argmin_from xs (Suc i) i x else argmin_from xs (Suc i) best_i best)"

definition argmin :: "'a::linorder list \<Rightarrow> py_error + nat" where
  "argmin a = (case a of [] \<Rightarrow> Inl ValueError | x # xs \<Rightarrow> Inr (argmin_from xs 1 0 x))"

fun argmax_from :: "real list \<Rightarrow> nat \<Rightarrow> nat \<Rightarrow> real \<Rightarrow> nat" where
  "argmax_from [] i best_i best = best_i"
| "argmax_from (x # xs) i best_i best =
     (if x > best then argmax_from xs (Suc i) i x else argmax_from xs (Suc i) best_i best)"

definition argmax :: "real list \<Rightarrow> py_error + nat" where
  "argmax a = (case a of [] \<Rightarrow> Inl ValueError | x # xs \<Rightarrow> Inr (argmax_from xs 1 0 x))"

text \<open>Python's \<^verbatim>\<open>min\<close> and \<^verbatim>\<open>max\<close> of a list: ValueError on an empty one.\<close>

definition py_min :: "real list \<Rightarrow> py_error + real" where
  "py_min xs = (case xs of [] \<Rightarrow> Inl ValueError | x # rest \<Rightarrow> Inr (fold min rest x))"

definition py_max :: "real list \<Rightarrow> py_error + real" where
  "py_max xs = (case xs of [] \<Rightarrow> Inl ValueError | x # rest \<Rightarrow> Inr (fold max rest x))"

text \<open>\<^verbatim>\<open>min_gwp_index = np.argmin(pareto_GWP)\<close>\<close>

definition min_gwp_index :: "point list \<Rightarrow> py_error + nat" where
  "min_gwp_index front = argmin (pareto_GWP front)"

text \<open>\<^verbatim>\<open>max_npv_index = np.argmax(pareto_NPV)\<close>\<close>

definition max_npv_index :: "point list \<Rightarrow> py_error + nat" where
  "max_npv_index front = argmax (pareto_NPV front)"

text \<open>
  \<^verbatim>\<open>from scipy.spatial.distance import euclidean
  ideal_gwp = min(pareto_GWP)
  ideal_npv = max(pareto_NPV)
  distances = [euclidean((gwp, npv), (ideal_gwp, ideal_npv))
               for gwp, npv in zip(pareto_GWP, pareto_NPV)]
  knee_index = np.argmin(distances)\<close>
  The function \<^verbatim>\<open>euclidean\<close> is scipy's, outside the repository: it turns the two
  tuples into arrays, subtracts them and takes the 2-norm, in the arithmetic of the
  arrays' type. It is a parameter here: the value the library returns for two pairs,
  in any linearly ordered type (the finite doubles, or the doubles with infinity).
\<close>

definition distances :: "(point \<Rightarrow> point \<Rightarrow> 'd) \<Rightarrow> point list \<Rightarrow> real \<Rightarrow> real \<Rightarrow> 'd list" where
  "distances euclidean front ideal_gwp ideal_npv =
     map (\<lambda>(gwp, npv). euclidean (gwp, npv) (ideal_gwp, ideal_npv))
       (zip (pareto_GWP front) (pareto_NPV front))"

definition knee_index :: "(point \<Rightarrow> point \<Rightarrow> 'd::linorder) \<Rightarrow> point list \<Rightarrow> py_error + nat" where
  "knee_index euclidean front =
     (case py_min (pareto_GWP front) of
        Inl e \<Rightarrow> Inl e
      | Inr ideal_gwp \<Rightarrow>
          (case py_max (pareto_NPV front) of
             Inl e \<Rightarrow> Inl e
           | Inr ideal_npv \<Rightarrow> argmin (distances euclidean front ideal_gwp ideal_npv)))"

subsection \<open>The distance in double arithmetic\<close>

text \<open>
  An operation on doubles (IEEE 754 binary64) gives the exact result rounded to 53
  significant bits, to the nearest such number, a tie going to the even one. Overflow
  and subnormal numbers are left out: the model is used on numbers of size between \<^verbatim>\<open>2^-60\<close>
  and \<^verbatim>\<open>2^25\<close> only.
\<close>

definition round_even :: "real \<Rightarrow> int" where
  "round_even y =
     (let f = \<lfloor>y\<rfloor>
      in if y - of_int f < 1 / 2 then f
         else if y - of_int f > 1 / 2 then f + 1
         else if even f then f else f + 1)"

definition round_double :: "real \<Rightarrow> real" where
  "round_double x =
     (if x = 0 then 0
      else (let ulp = 2 powr of_int (\<lfloor>log 2 \<bar>x\<bar>\<rfloor> - 52)
            in of_int (round_even (x / ulp)) * ulp))"

text \<open>
  \<^verbatim>\<open>euclidean(u, v)\<close> on arrays of doubles: the difference \<^verbatim>\<open>u - v\<close> by component,
  then the square root of the sum of the squares, every operation rounded.
\<close>

definition euclidean_double :: "point \<Rightarrow> point \<Rightarrow> real" where
  "euclidean_double u v =
     (let d0 = round_double (fst u - fst v);
          d1 = round_double (snd u - snd v)
      in round_double (sqrt (round_double (round_double (d0 * d0) + round_double (d1 * d1)))))"

text \<open>
  The distance as the specification words it (section 4.6): the Euclidean distance in
  (gwp, npv) space.
\<close>

definition spec_distance :: "point \<Rightarrow> point \<Rightarrow> real" where
  "spec_distance u v = sqrt ((fst u - fst v)\<^sup>2 + (snd u - snd v)\<^sup>2)"


text \<open>A table with two feasible scenarios of equal (GWP, NPV) and different percentages.\<close>

definition example_df :: "df_row list" where
  "example_df =
     [\<lparr>bioethanol_percent = 50, vanillin_percent = 30, furfural_percent = 20, GWP = -10, NPV = 100\<rparr>,
      \<lparr>bioethanol_percent = 40, vanillin_percent = 35, furfural_percent = 25, GWP = -10, NPV = 100\<rparr>,
      \<lparr>bioethanol_percent = 10, vanillin_percent = 10, furfural_percent = 80, GWP = -5, NPV = -3\<rparr>,
      \<lparr>bioethanol_percent = 30, vanillin_percent = 30, furfural_percent = 40, GWP = -8, NPV = 80\<rparr>]"

section \<open>BIO-OPT: the life-cycle assessment class (\<^verbatim>\<open>biorefinery_LCA\<close>)\<close>

text \<open>
  Python compares dictionary keys of any type. Functional-unit names are strings
  (\<^verbatim>\<open>f'Vanillin {i}% production'\<close>) and impact methods are tuples of strings
  (\<^verbatim>\<open>('TRACI (obsolete)', 'environmental impact', 'global warming')\<close>); a string
  never equals a tuple.
\<close>

datatype key = Str string | Tup "string list"

text \<open>
  A technosphere exchange (\<^verbatim>\<open>exc.input\<close>, \<^verbatim>\<open>exc['amount']\<close>,
  \<^verbatim>\<open>exc['group_tag']\<close>) and an activity of the database (\<^verbatim>\<open>act['code']\<close>,
  \<^verbatim>\<open>act.technosphere()\<close>). An activity is referred to by its code.
\<close>

record exchange =
  input :: string
  amount :: real
  group_tag :: string

record activity =
  code :: string
  technosphere :: "exchange list"

text \<open>
  The impact engine (Brightway2) is outside the repository and is a parameter:
  \<^verbatim>\<open>LCA({activity: amount}, method)\<close> followed by \<^verbatim>\<open>lci()\<close>, \<^verbatim>\<open>lcia()\<close> and
  \<^verbatim>\<open>.score\<close> either raises or gives a number, and
  \<^verbatim>\<open>ContributionAnalysis().annotated_top_processes(lca)\<close> gives a list.
\<close>

record engine =
  LCA_score :: "string \<Rightarrow> real \<Rightarrow> key \<Rightarrow> py_error + real"
  annotated_top_processes :: "string \<Rightarrow> real \<Rightarrow> key \<Rightarrow> (real \<times> string) list"

text \<open>
  \<^verbatim>\<open>techno_impact_results_grouped\<close> is first a \<^verbatim>\<open>defaultdict(list)\<close> from group
  tag to scores, then a dictionary from group tag to their sum.
\<close>

datatype grouped = DefaultDictList "string \<rightharpoonup> real list" | DictSum "string \<rightharpoonup> real"

text \<open>
  The attributes of the object that \<^verbatim>\<open>calc_lca\<close> and \<^verbatim>\<open>analyze_lca\<close> read or
  write. An attribute that \<^verbatim>\<open>__init__\<close> does not create is an option: reading it
  while it is \<open>None\<close> raises AttributeError. No method of the class assigns
  \<^verbatim>\<open>FU_activity\<close> (in \<^verbatim>\<open>calc_lca\<close> it is a local variable).
\<close>

record biorefinery_LCA =
  project_name :: string
  analysis_done :: bool
  LCA_results_dict :: "key \<rightharpoonup> (key \<rightharpoonup> real)"
  FU_codes :: "(string \<times> string) list option"
  lcia_methods :: "key list option"
  calc_done :: "bool option"
  top_processes_dict :: "(key \<rightharpoonup> (key \<rightharpoonup> (real \<times> string) list)) option"
  impact_of_interest :: "key option"
  n_top_items :: "nat option"
  techno_impact_results_grouped :: "grouped option"
  FU_activity :: "activity option"

text \<open>
  \<^verbatim>\<open>def __init__(self, project_name):
      self.project_name = project_name
      ...
      self.analysis_done = False
      self.LCA_results_dict = {}\<close>
\<close>

definition init :: "string \<Rightarrow> biorefinery_LCA" where
  "init name =
     \<lparr>project_name = name, analysis_done = False, LCA_results_dict = Map.empty,
      FU_codes = None, lcia_methods = None, calc_done = None, top_processes_dict = None,
      impact_of_interest = None, n_top_items = None, techno_impact_results_grouped = None,
      FU_activity = None\<rparr>"

text \<open>
  A method call returns the exception it raised, if any, and the object as the call
  left it: what was assigned before a raise stays assigned.

  The inner loop of \<^verbatim>\<open>calc_lca\<close>:
  \<^verbatim>\<open>for method in self.lcia_methods:
      self.lca = LCA({FU_activity: amount_FU}, method)
      self.lca.lci()
      self.lca.lcia()
      if FU_name not in self.LCA_results_dict:
          self.LCA_results_dict[FU_name] = {}
      self.LCA_results_dict[FU_name][method] = self.lca.score
      if FU_name not in self.top_processes_dict:
          self.top_processes_dict[FU_name] = {}
      self.top_processes_dict[FU_name][method] =
          self.contribut_anal_obj.annotated_top_processes(self.lca)\<close>
\<close>

fun calc_methods ::
  "engine \<Rightarrow> string \<Rightarrow> activity \<Rightarrow> real \<Rightarrow> key list \<Rightarrow> biorefinery_LCA
     \<Rightarrow> py_error option \<times> biorefinery_LCA" where
  "calc_methods eng FU_name FU_act amount_FU [] s = (None, s)"
| "calc_methods eng FU_name FU_act amount_FU (method # methods) s =
     (case LCA_score eng (code FU_act) amount_FU method of
        Inl e \<Rightarrow> (Some e, s)
      | Inr sc \<Rightarrow>
          (let results = LCA_results_dict s;
               of_FU = (case results (Str FU_name) of None \<Rightarrow> Map.empty | Some d \<Rightarrow> d);
               s1 = s\<lparr>LCA_results_dict := results(Str FU_name \<mapsto> of_FU(method \<mapsto> sc))\<rparr>
           in case top_processes_dict s1 of
                None \<Rightarrow> (Some AttributeError, s1)
              | Some tops \<Rightarrow>
                  (let top_of_FU = (case tops (Str FU_name) of None \<Rightarrow> Map.empty | Some d \<Rightarrow> d);
                       s2 = s1\<lparr>top_processes_dict :=
                                 Some (tops(Str FU_name \<mapsto>
                                   top_of_FU(method \<mapsto>
                                     annotated_top_processes eng (code FU_act) amount_FU method)))\<rparr>
                   in calc_methods eng FU_name FU_act amount_FU methods s2)))"

text \<open>
  The outer loop:
  \<^verbatim>\<open>for FU_name, FU_code in self.FU_codes.items():
      FU_activity = [act for act in db if act['code'] == FU_code][0]
      amount_FU = vanillin_production[FU_name]
      for method in self.lcia_methods: ...\<close>
  The dictionary \<^verbatim>\<open>FU_codes\<close> is the list of its items in insertion order.
\<close>

fun calc_units ::
  "engine \<Rightarrow> activity list \<Rightarrow> (string \<rightharpoonup> real) \<Rightarrow> key list \<Rightarrow> (string \<times> string) list
     \<Rightarrow> biorefinery_LCA \<Rightarrow> py_error option \<times> biorefinery_LCA" where
  "calc_units eng db vanillin_production methods [] s = (None, s)"
| "calc_units eng db vanillin_production methods ((FU_name, FU_code) # units) s =
     (case filter (\<lambda>act. code act = FU_code) db of
        [] \<Rightarrow> (Some IndexError, s)
      | FU_act # _ \<Rightarrow>
          (case vanillin_production FU_name of
             None \<Rightarrow> (Some KeyError, s)
           | Some amount_FU \<Rightarrow>
               (case calc_methods eng FU_name FU_act amount_FU methods s of
                  (Some e, s') \<Rightarrow> (Some e, s')
                | (None, s') \<Rightarrow> calc_units eng db vanillin_production methods units s')))"

text \<open>
  \<^verbatim>\<open>def calc_lca(self, lcia_methods, db, FU_codes, vanillin_production, calc_done=False):
      self.FU_codes = FU_codes
      self.lcia_methods = lcia_methods
      self.calc_done = calc_done
      self.LCA_results_dict = {}
      self.top_processes_dict = {}
      ...
      for FU_name, FU_code in self.FU_codes.items(): ...
      self.calc_done = True\<close>
\<close>

definition calc_lca ::
  "engine \<Rightarrow> biorefinery_LCA \<Rightarrow> key list \<Rightarrow> activity list \<Rightarrow> (string \<times> string) list
     \<Rightarrow> (string \<rightharpoonup> real) \<Rightarrow> bool \<Rightarrow> py_error option \<times> biorefinery_LCA" where
  "calc_lca eng s methods db codes vanillin_production calc_done_arg =
     (let s1 = s\<lparr>FU_codes := Some codes, lcia_methods := Some methods, calc_done := Some calc_done_arg,
                 LCA_results_dict := Map.empty, top_processes_dict := Some Map.empty\<rparr>
      in case calc_units eng db vanillin_production methods codes s1 of
           (Some e, s2) \<Rightarrow> (Some e, s2)
         | (None, s2) \<Rightarrow> (None, s2\<lparr>calc_done := Some True\<rparr>))"

text \<open>
  The body of the loop of \<^verbatim>\<open>analyze_lca\<close> begins with
  \<^verbatim>\<open>self.top_processes = {self.impact_of_interest:
      self.top_processes_dict[self.impact_of_interest][:self.n_top_items+1]}\<close>
  A value stored in \<^verbatim>\<open>top_processes_dict\<close> is a dictionary (\<^verbatim>\<open>calc_lca\<close> creates
  it as \<^verbatim>\<open>{}\<close> and fills it by method), and slicing a dictionary raises TypeError, so
  the statement raises whenever it runs and the statements after it (the scoring of
  the exchanges of \<^verbatim>\<open>self.FU_activity\<close> and the sum by group tag) are never reached.
\<close>

definition analyze_body :: "engine \<Rightarrow> biorefinery_LCA \<Rightarrow> py_error option \<times> biorefinery_LCA" where
  "analyze_body eng s =
     (case top_processes_dict s of
        None \<Rightarrow> (Some AttributeError, s)
      | Some tops \<Rightarrow>
          (case impact_of_interest s of
             None \<Rightarrow> (Some AttributeError, s)
           | Some impact \<Rightarrow>
               (case tops impact of
                  None \<Rightarrow> (Some KeyError, s)
                | Some d \<Rightarrow> (Some TypeError, s))))"

text \<open>
  \<^verbatim>\<open>def analyze_lca(self, impact_of_interest, n_top_items=5, analysis_done=False):
      self.impact_of_interest = impact_of_interest
      self.n_top_items = n_top_items
      assert self.impact_of_interest in self.LCA_results_dict.keys(), "This method is not in your LCIA method list!"
      self.analysis_done = True #analysis_done
      self.techno_impact_results_grouped = collections.defaultdict(list)
      while not self.analysis_done:
          ...
          self.analysis_done = True\<close>
  The parameter \<^verbatim>\<open>analysis_done\<close> is not used. The loop tests the attribute that the
  line before it has set; its body, which ends by setting the attribute, runs at most
  once.
\<close>

definition analyze_lca ::
  "engine \<Rightarrow> biorefinery_LCA \<Rightarrow> key \<Rightarrow> nat \<Rightarrow> bool \<Rightarrow> py_error option \<times> biorefinery_LCA" where
  "analyze_lca eng s impact n_top analysis_done_arg =
     (let s1 = s\<lparr>impact_of_interest := Some impact, n_top_items := Some n_top\<rparr>
      in if impact \<notin> dom (LCA_results_dict s1) then (Some AssertionError, s1)
         else
           (let s2 = s1\<lparr>analysis_done := True\<rparr>;
                s3 = s2\<lparr>techno_impact_results_grouped := Some (DefaultDictList Map.empty)\<rparr>
            in if \<not> analysis_done s3 then analyze_body eng s3 else (None, s3)))"

text \<open>
  The objects a program can hold: a new one, and what a call of either method leaves,
  whether the call returned or raised. The other methods of the class
  (\<^verbatim>\<open>import_db\<close>, \<^verbatim>\<open>import_foreground\<close>, \<^verbatim>\<open>print_lca_results\<close>,
  \<^verbatim>\<open>gen_fig\<close>, \<^verbatim>\<open>gen_report\<close>) assign none of the attributes above.
\<close>

inductive reachable :: "biorefinery_LCA \<Rightarrow> bool" where
  new: "reachable (init name)"
| after_calc:
    "reachable s \<Longrightarrow> reachable (snd (calc_lca eng s methods db codes vanillin_production calc_done_arg))"
| after_analyze:
    "reachable s \<Longrightarrow> reachable (snd (analyze_lca eng s impact n_top analysis_done_arg))"

text \<open>
  The aggregation as the specification words it (section 4.3): the score of every
  exchange under the method, summed by group tag; a tag no exchange carries has no
  bucket.
\<close>

definition spec_aggregate ::
  "(string \<Rightarrow> real \<Rightarrow> key \<Rightarrow> real) \<Rightarrow> key \<Rightarrow> exchange list \<Rightarrow> (string \<rightharpoonup> real)" where
  "spec_aggregate score method excs tag =
     (if tag \<in> group_tag ` set excs
      then Some (sum_list (map (\<lambda>exc. score (input exc) (amount exc) method)
                   (filter (\<lambda>exc. group_tag exc = tag) excs)))
      else None)"

text \<open>The outer keys of \<^verbatim>\<open>LCA_results_dict\<close> are functional-unit names.\<close>

definition keys_are_names :: "biorefinery_LCA \<Rightarrow> bool" where
  "keys_are_names s \<longleftrightarrow> (\<forall>k \<in> dom (LCA_results_dict s). \<exists>name. k = Str name)"

text \<open>One functional unit, evaluated under one method; its activity has one exchange.\<close>

definition example_engine :: engine where
  "example_engine =
     \<lparr>LCA_score = (\<lambda>act amt method. Inr (5 * amt)),
      annotated_top_processes = (\<lambda>act amt method. [(5 * amt, act)])\<rparr>"

definition example_db :: "activity list" where
  "example_db =
     [\<lparr>code = ''ThisIsFU1'',
       technosphere = [\<lparr>input = ''electricity'', amount = 1, group_tag = ''energy''\<rparr>]\<rparr>]"

definition example_method :: key where
  "example_method = Tup [''TRACI (obsolete)'', ''environmental impact'', ''global warming'']"

definition example_obj :: biorefinery_LCA where
  "example_obj =
     snd (calc_lca example_engine (init ''LCA_module'') [example_method] example_db
            [(''Vanillin 1% production'', ''ThisIsFU1'')]
            [''Vanillin 1% production'' \<mapsto> 2] False)"

section \<open>Properties of the dominance filter\<close>

lemma is_dominated_iff: "is_dominated p pts \<longleftrightarrow> (\<exists>q \<in> set pts. value_dominates q p)"
  by (induction pts) (auto simp: value_dominates_def)

lemma set_pareto_front:
  "set (pareto_front pts) = {p \<in> set pts. \<not> is_dominated p pts}"
  by (simp add: pareto_front_def)

lemma front_positions_nth: "map ((!) pts) (front_positions pts) = pareto_front pts"
proof -
  have "map ((!) pts) (filter (\<lambda>i. \<not> is_dominated (pts ! i) pts) [0..<length pts])
        = filter (\<lambda>p. \<not> is_dominated p pts) (map ((!) pts) [0..<length pts])"
    by (simp add: filter_map comp_def)
  then show ?thesis
    by (simp add: front_positions_def pareto_front_def map_nth)
qed








text \<open>
  C2 (antichain), as the specification states it: no front member dominates another
  front member under the rule of section 4.5. Two scenarios with the same values
  are both kept, and under that rule each dominates the other.
\<close>

theorem pareto_front_antichain_counterexample:
  "pareto_front [(2, 5), (2, 5), (3, 1 :: real)] = [(2, 5), (2, 5)] \<and>
   spec_dominates (pareto_front [(2, 5), (2, 5), (3, 1)]) 0 1"
  by (simp add: pareto_front_def spec_dominates_def)

text \<open>
  C2, amended: of two front members whose (GWP, NPV) pairs differ, neither dominates
  the other under the rule of section 4.5.
\<close>

theorem pareto_front_antichain:
  assumes "a < length (pareto_front pts)" and "b < length (pareto_front pts)"
    and "pareto_front pts ! a \<noteq> pareto_front pts ! b"
  shows "\<not> spec_dominates (pareto_front pts) a b \<and> \<not> spec_dominates (pareto_front pts) b a"
proof -
  let ?F = "pareto_front pts"
  have mem: "?F ! a \<in> set ?F" "?F ! b \<in> set ?F"
    using assms by simp_all
  then have nd: "\<not> is_dominated (?F ! a) pts" "\<not> is_dominated (?F ! b) pts"
    and inp: "?F ! a \<in> set pts" "?F ! b \<in> set pts"
    by (simp_all add: set_pareto_front)
  from nd inp have "\<not> value_dominates (?F ! b) (?F ! a)" "\<not> value_dominates (?F ! a) (?F ! b)"
    by (auto simp: is_dominated_iff)
  with assms(3) show ?thesis
    by (auto simp: spec_dominates_def value_dominates_def)
qed

theorem pareto_front_antichain_witness:
  "\<not> spec_dominates (pareto_front [(1, 1), (1, 1), (0, 0), (2, 2), (2, 1 :: real)]) 0 2 \<and>
   \<not> spec_dominates (pareto_front [(1, 1), (1, 1), (0, 0), (2, 2), (2, 1 :: real)]) 2 0"
  using pareto_front_antichain [of 0 "[(1, 1), (1, 1), (0, 0), (2, 2), (2, 1)]" 2]
  by (simp add: pareto_front_def)



text \<open>
  C4 (idempotence): filtering the front again changes nothing,
  \<open>pareto_front (pareto_front S) = pareto_front S\<close>, for every list of points \<open>S\<close>.
\<close>

theorem pareto_front_idempotent: "pareto_front (pareto_front S) = pareto_front S"
proof -
  have "\<not> is_dominated p (pareto_front S)" if "p \<in> set (pareto_front S)" for p
  proof
    assume "is_dominated p (pareto_front S)"
    then obtain q where "q \<in> set (pareto_front S)" "value_dominates q p"
      by (auto simp: is_dominated_iff)
    then have "is_dominated p S"
      by (auto simp: is_dominated_iff set_pareto_front)
    with that show False
      by (simp add: set_pareto_front)
  qed
  then have "filter (\<lambda>p. \<not> is_dominated p (pareto_front S)) (pareto_front S) = pareto_front S"
    by (simp add: filter_id_conv)
  then show ?thesis
    by (subst pareto_front_def) simp
qed

theorem pareto_front_idempotent_witness:
  "pareto_front (pareto_front [(1, 1), (1, 1), (0, 0), (2, 2), (2, 1)])
     = pareto_front [(1, 1), (1, 1), (0, 0), (2, 2), (2, 1 :: real)]"
  using pareto_front_idempotent [of "[(1, 1), (1, 1), (0, 0), (2, 2), (2, 1)]"] by simp

section \<open>Properties of the representative rows\<close>

lemma argmin_from_spec:
  "(argmin_from xs i bi b = bi \<and> (\<forall>x \<in> set xs. b \<le> x)) \<or>
   (\<exists>m < length xs. argmin_from xs i bi b = i + m \<and> xs ! m < b \<and>
        (\<forall>j < length xs. xs ! m \<le> xs ! j) \<and> (\<forall>j < m. xs ! m < xs ! j))"
proof (induction xs arbitrary: i bi b)
  case Nil
  then show ?case by simp
next
  case (Cons x xs)
  show ?case
  proof (cases "x < b")
    case True
    from Cons.IH [of "Suc i" i x] show ?thesis
    proof (elim disjE conjE exE)
      assume a: "argmin_from xs (Suc i) i x = i" "\<forall>y \<in> set xs. x \<le> y"
      have "\<forall>j < length (x # xs). (x # xs) ! 0 \<le> (x # xs) ! j"
        using a(2) by (auto simp: nth_Cons split: nat.splits)
      with True a(1) have "0 < length (x # xs) \<and> argmin_from (x # xs) i bi b = i + 0 \<and> (x # xs) ! 0 < b \<and>
        (\<forall>j < length (x # xs). (x # xs) ! 0 \<le> (x # xs) ! j) \<and> (\<forall>j < (0::nat). (x # xs) ! 0 < (x # xs) ! j)"
        by simp
      then show ?thesis by blast
    next
      fix m assume a: "m < length xs" "argmin_from xs (Suc i) i x = Suc i + m" "xs ! m < x"
        "\<forall>j < length xs. xs ! m \<le> xs ! j" "\<forall>j < m. xs ! m < xs ! j"
      have "\<forall>j < length (x # xs). (x # xs) ! Suc m \<le> (x # xs) ! j"
        using a(3,4) by (auto simp: nth_Cons split: nat.splits)
      moreover have "\<forall>j < Suc m. (x # xs) ! Suc m < (x # xs) ! j"
        using a(3,5) by (auto simp: nth_Cons split: nat.splits)
      ultimately have "Suc m < length (x # xs) \<and> argmin_from (x # xs) i bi b = i + Suc m \<and> (x # xs) ! Suc m < b \<and>
        (\<forall>j < length (x # xs). (x # xs) ! Suc m \<le> (x # xs) ! j) \<and> (\<forall>j < Suc m. (x # xs) ! Suc m < (x # xs) ! j)"
        using True a(1,2,3) by simp
      then show ?thesis by blast
    qed
  next
    case False
    from Cons.IH [of "Suc i" bi b] show ?thesis
    proof (elim disjE conjE exE)
      assume a: "argmin_from xs (Suc i) bi b = bi" "\<forall>y \<in> set xs. b \<le> y"
      from False have "b \<le> x" by simp
      with False a have "argmin_from (x # xs) i bi b = bi \<and> (\<forall>y \<in> set (x # xs). b \<le> y)"
        by simp
      then show ?thesis by (rule disjI1)
    next
      fix m assume a: "m < length xs" "argmin_from xs (Suc i) bi b = Suc i + m" "xs ! m < b"
        "\<forall>j < length xs. xs ! m \<le> xs ! j" "\<forall>j < m. xs ! m < xs ! j"
      have "\<forall>j < length (x # xs). (x # xs) ! Suc m \<le> (x # xs) ! j"
        using a(3,4) False by (auto simp: nth_Cons split: nat.splits)
      moreover have "\<forall>j < Suc m. (x # xs) ! Suc m < (x # xs) ! j"
        using a(3,5) False by (auto simp: nth_Cons split: nat.splits)
      ultimately have "Suc m < length (x # xs) \<and> argmin_from (x # xs) i bi b = i + Suc m \<and> (x # xs) ! Suc m < b \<and>
        (\<forall>j < length (x # xs). (x # xs) ! Suc m \<le> (x # xs) ! j) \<and> (\<forall>j < Suc m. (x # xs) ! Suc m < (x # xs) ! j)"
        using False a(1,2,3) by simp
      then show ?thesis by blast
    qed
  qed
qed

lemma argmin_first_least:
  assumes "a \<noteq> []"
  shows "\<exists>k < length a. argmin a = Inr k \<and> (\<forall>j < length a. a ! k \<le> a ! j) \<and> (\<forall>j < k. a ! k < a ! j)"
proof -
  from assms obtain x xs where a: "a = x # xs" by (cases a) auto
  from argmin_from_spec [of xs 1 0 x] show ?thesis
  proof (elim disjE conjE exE)
    assume h: "argmin_from xs 1 0 x = 0" "\<forall>y \<in> set xs. x \<le> y"
    have "\<forall>j < length a. a ! 0 \<le> a ! j"
      using h(2) a by (auto simp: nth_Cons split: nat.splits)
    with h(1) a have "0 < length a \<and> argmin a = Inr 0 \<and> (\<forall>j < length a. a ! 0 \<le> a ! j) \<and> (\<forall>j < (0::nat). a ! 0 < a ! j)"
      by (simp add: argmin_def)
    then show ?thesis by blast
  next
    fix m assume h: "m < length xs" "argmin_from xs 1 0 x = 1 + m" "xs ! m < x"
        "\<forall>j < length xs. xs ! m \<le> xs ! j" "\<forall>j < m. xs ! m < xs ! j"
    have "\<forall>j < length a. a ! Suc m \<le> a ! j"
      using h(3,4) a by (auto simp: nth_Cons split: nat.splits)
    moreover have "\<forall>j < Suc m. a ! Suc m < a ! j"
      using h(3,5) a by (auto simp: nth_Cons split: nat.splits)
    ultimately have "Suc m < length a \<and> argmin a = Inr (Suc m) \<and> (\<forall>j < length a. a ! Suc m \<le> a ! j) \<and> (\<forall>j < Suc m. a ! Suc m < a ! j)"
      using h(1,2) a by (simp add: argmin_def)
    then show ?thesis by blast
  qed
qed

lemma argmax_from_uminus: "argmax_from xs i bi b = argmin_from (map uminus xs) i bi (- b)"
  by (induction xs arbitrary: i bi b) auto

lemma argmax_uminus: "argmax a = argmin (map uminus a)"
  by (cases a) (simp_all add: argmax_def argmin_def argmax_from_uminus)

lemma argmax_first_greatest:
  assumes "a \<noteq> []"
  shows "\<exists>k < length a. argmax a = Inr k \<and> (\<forall>j < length a. a ! j \<le> a ! k) \<and> (\<forall>j < k. a ! j < a ! k)"
proof -
  from assms have "map uminus a \<noteq> []" by simp
  from argmin_first_least [OF this] obtain k where k: "k < length a" "argmin (map uminus a) = Inr k"
    "\<forall>j < length a. - a ! k \<le> - a ! j" "\<forall>j < k. - a ! k < - a ! j"
    by auto
  then show ?thesis
    by (auto simp: argmax_uminus)
qed




lemma sqrt_2500: "sqrt 2500 = 50"
  by (rule real_sqrt_unique) simp_all



lemma round_even_near: "\<bar>y - of_int n\<bar> < 1 / 2 \<Longrightarrow> round_even y = n"
proof -
  assume a: "\<bar>y - of_int n\<bar> < 1 / 2"
  show ?thesis
  proof (cases "of_int n \<le> y")
    case True
    with a have "\<lfloor>y\<rfloor> = n" by (intro floor_unique) linarith+
    with a True show ?thesis by (simp add: round_even_def Let_def)
  next
    case False
    with a have f: "\<lfloor>y\<rfloor> = n - 1" by (intro floor_unique) (simp, linarith)+
    from a False have "\<not> y - of_int (n - 1) < 1 / 2" "y - of_int (n - 1) > 1 / 2" by simp_all
    with f show ?thesis by (simp add: round_even_def Let_def)
  qed
qed

lemma round_double_near:
  assumes "2 powr of_int k \<le> \<bar>x\<bar>" and "\<bar>x\<bar> < 2 powr of_int (k + 1)"
    and "\<bar>x / 2 powr of_int (k - 52) - of_int n\<bar> < 1 / 2"
  shows "round_double x = of_int n * 2 powr of_int (k - 52)"
proof -
  have "0 < \<bar>x\<bar>" using assms(1) by (smt (verit) powr_gt_zero)
  then have nz: "x \<noteq> 0" by simp
  from \<open>0 < \<bar>x\<bar>\<close> assms(1,2) have "\<lfloor>log 2 \<bar>x\<bar>\<rfloor> = k"
    by (simp add: floor_log_eq_powr_iff)
  with nz assms(3) show ?thesis
    by (simp add: round_double_def Let_def round_even_near)
qed

lemma round_double_int:
  assumes "\<bar>n\<bar> < 2 ^ 53"
  shows "round_double (of_int n) = of_int n"
proof (cases "n = 0")
  case True
  then show ?thesis by (simp add: round_double_def)
next
  case False
  define k where "k = \<lfloor>log 2 \<bar>real_of_int n\<bar>\<rfloor>"
  have pos: "0 < \<bar>real_of_int n\<bar>" using False by simp
  have k: "2 powr of_int k \<le> \<bar>real_of_int n\<bar>" "\<bar>real_of_int n\<bar> < 2 powr of_int (k + 1)"
    using floor_log_eq_powr_iff [of "\<bar>real_of_int n\<bar>" 2 k] pos by (simp_all add: k_def)
  have "1 \<le> \<bar>real_of_int n\<bar>" using False by (simp add: abs_if)
  then have "0 \<le> log 2 \<bar>real_of_int n\<bar>" by simp
  then have k0: "0 \<le> k" by (simp add: k_def)
  have "\<bar>real_of_int n\<bar> < 2 ^ 53" using assms by (metis of_int_abs of_int_less_numeral_power_cancel_iff)
  moreover have "(2::real) powr real_of_int 53 = 2 ^ 53" by simp
  ultimately have "2 powr real_of_int k < (2::real) powr real_of_int 53"
    using k(1) by linarith
  then have "real_of_int k < real_of_int 53"
    by (subst (asm) powr_less_cancel_iff) simp_all
  then have k52: "k \<le> 52" by simp
  define m where "m = n * 2 ^ nat (52 - k)"
  have p: "2 powr (real_of_int k - 52) = 1 / 2 ^ nat (52 - k)"
  proof (cases "k = 52")
    case True
    then show ?thesis by simp
  next
    case False
    with k52 have "k - 52 < 0" "nat (- (k - 52)) = nat (52 - k)" by simp_all
    with powr_real_of_int [of 2 "k - 52"] show ?thesis
      by (simp add: inverse_eq_divide)
  qed
  have "real_of_int n / 2 powr of_int (k - 52) = of_int m"
    by (simp add: p m_def)
  then have "\<bar>real_of_int n / 2 powr of_int (k - 52) - of_int m\<bar> < 1 / 2" by simp
  from round_double_near [OF k this] show ?thesis
    by (simp add: p m_def)
qed

lemma round_double_small:
  "round_double 2 = 2" "round_double 4 = 4" "round_double 50 = 50" "round_double (- 50) = - 50"
  "round_double 2500 = 2500" "round_double 1000 = 1000" "round_double (- 1000) = - 1000"
  "round_double 1000000 = 1000000" "round_double 5000 = 5000" "round_double 25000000 = 25000000"
  using round_double_int [of 2] round_double_int [of 4] round_double_int [of 50]
    round_double_int [of "- 50"] round_double_int [of 2500] round_double_int [of 1000]
    round_double_int [of "- 1000"] round_double_int [of 1000000] round_double_int [of 5000]
    round_double_int [of 25000000]
  by simp_all

lemma round_double_0: "round_double 0 = 0"
  by (simp add: round_double_def)


lemma euclidean_double_example:
  "euclidean_double (- 10, 100) (- 10, 150) = 50"
  "euclidean_double (- 8, 150) (- 10, 150) = 2"
  by (simp_all add: euclidean_double_def round_double_0 round_double_small sqrt_2500)


text \<open>
  C7 (best single-objective rows): on a front that is not empty,
  \<^verbatim>\<open>min_gwp_index\<close> is the position of a member whose GWP is the least of the front
  and \<^verbatim>\<open>max_npv_index\<close> the position of a member whose NPV is the greatest, each the
  earliest such position: every member before it is strictly worse.
\<close>

theorem best_single_objective:
  assumes "front \<noteq> []"
  shows "\<exists>k m. min_gwp_index front = Inr k \<and> k < length front \<and>
           (\<forall>j < length front. fst (front ! k) \<le> fst (front ! j)) \<and>
           (\<forall>j < k. fst (front ! k) < fst (front ! j)) \<and>
           max_npv_index front = Inr m \<and> m < length front \<and>
           (\<forall>j < length front. snd (front ! j) \<le> snd (front ! m)) \<and>
           (\<forall>j < m. snd (front ! j) < snd (front ! m))"
proof -
  from assms have ne: "pareto_GWP front \<noteq> []" "pareto_NPV front \<noteq> []"
    by (simp_all add: pareto_GWP_def pareto_NPV_def)
  from argmin_first_least [OF ne(1)] obtain k where k: "k < length front"
    "argmin (pareto_GWP front) = Inr k"
    "\<forall>j < length front. fst (front ! k) \<le> fst (front ! j)"
    "\<forall>j < k. fst (front ! k) < fst (front ! j)"
    by (auto simp: pareto_GWP_def)
  from argmax_first_greatest [OF ne(2)] obtain m where m: "m < length front"
    "argmax (pareto_NPV front) = Inr m"
    "\<forall>j < length front. snd (front ! j) \<le> snd (front ! m)"
    "\<forall>j < m. snd (front ! j) < snd (front ! m)"
    by (auto simp: pareto_NPV_def)
  from k m show ?thesis
    unfolding min_gwp_index_def max_npv_index_def by blast
qed

theorem best_single_objective_witness:
  "min_gwp_index [(1, 1), (0, 0), (2, 2), (0, 0), (2, 2)] = Inr 1 \<and>
   max_npv_index [(1, 1), (0, 0), (2, 2), (0, 0), (2, 2)] = Inr 2"
  using best_single_objective [of "[(1, 1), (0, 0), (2, 2), (0, 0), (2, 2)]"]
  by (simp add: min_gwp_index_def max_npv_index_def argmin_def argmax_def
      pareto_GWP_def pareto_NPV_def)




text \<open>
  C5 (end-to-end example): the four rows with (GWP, NPV) = (-10, 100), (-8, 150),
  (-5, 90), (-8, 80), whatever their percentages, are all feasible; the front is
  [(-10, 100), (-8, 150)] and the table has these two rows; the row of least GWP is
  row 0, (-10, 100), the row of greatest NPV is row 1, (-8, 150); the ideal point is
  (-10, 150), the distances to it, computed in doubles, are 50 and 2, and the knee is
  row 1, (-8, 150).
\<close>

theorem end_to_end_example:
  "filtered_points (filtered_data
      [\<lparr>bioethanol_percent = b1, vanillin_percent = v1, furfural_percent = f1, GWP = -10, NPV = 100\<rparr>,
       \<lparr>bioethanol_percent = b2, vanillin_percent = v2, furfural_percent = f2, GWP = -8, NPV = 150\<rparr>,
       \<lparr>bioethanol_percent = b3, vanillin_percent = v3, furfural_percent = f3, GWP = -5, NPV = 90\<rparr>,
       \<lparr>bioethanol_percent = b4, vanillin_percent = v4, furfural_percent = f4, GWP = -8, NPV = 80\<rparr>])
     = [(-10, 100), (-8, 150), (-5, 90), (-8, 80)] \<and>
   pareto_front [(-10, 100), (-8, 150), (-5, 90), (-8, 80)] = [(-10, 100), (-8, 150)] \<and>
   pareto_df
      [\<lparr>bioethanol_percent = b1, vanillin_percent = v1, furfural_percent = f1, GWP = -10, NPV = 100\<rparr>,
       \<lparr>bioethanol_percent = b2, vanillin_percent = v2, furfural_percent = f2, GWP = -8, NPV = 150\<rparr>,
       \<lparr>bioethanol_percent = b3, vanillin_percent = v3, furfural_percent = f3, GWP = -5, NPV = 90\<rparr>,
       \<lparr>bioethanol_percent = b4, vanillin_percent = v4, furfural_percent = f4, GWP = -8, NPV = 80\<rparr>]
     = Inr [\<lparr>Total_GWP = -10, Total_NPV = 100, Bioethanol_pct = b1, Vanillin_pct = v1, Furfural_pct = f1\<rparr>,
            \<lparr>Total_GWP = -8, Total_NPV = 150, Bioethanol_pct = b2, Vanillin_pct = v2, Furfural_pct = f2\<rparr>] \<and>
   min_gwp_index [(-10, 100), (-8, 150)] = Inr 0 \<and>
   iloc [\<lparr>Total_GWP = -10, Total_NPV = 100, Bioethanol_pct = b1, Vanillin_pct = v1, Furfural_pct = f1\<rparr>,
         \<lparr>Total_GWP = -8, Total_NPV = 150, Bioethanol_pct = b2, Vanillin_pct = v2, Furfural_pct = f2\<rparr>] 0
     = Inr \<lparr>Total_GWP = -10, Total_NPV = 100, Bioethanol_pct = b1, Vanillin_pct = v1, Furfural_pct = f1\<rparr> \<and>
   max_npv_index [(-10, 100), (-8, 150)] = Inr 1 \<and>
   iloc [\<lparr>Total_GWP = -10, Total_NPV = 100, Bioethanol_pct = b1, Vanillin_pct = v1, Furfural_pct = f1\<rparr>,
         \<lparr>Total_GWP = -8, Total_NPV = 150, Bioethanol_pct = b2, Vanillin_pct = v2, Furfural_pct = f2\<rparr>] 1
     = Inr \<lparr>Total_GWP = -8, Total_NPV = 150, Bioethanol_pct = b2, Vanillin_pct = v2, Furfural_pct = f2\<rparr> \<and>
   py_min (pareto_GWP [(-10, 100), (-8, 150)]) = Inr (-10) \<and>
   py_max (pareto_NPV [(-10, 100), (-8, 150)]) = Inr 150 \<and>
   distances euclidean_double [(-10, 100), (-8, 150)] (-10) 150 = [50, 2] \<and>
   spec_distance (-10, 100) (-10, 150) = 50 \<and>
   spec_distance (-8, 150) (-10, 150) = 2 \<and>
   knee_index euclidean_double [(-10, 100), (-8, 150)] = Inr 1"
  by (simp add: filtered_points_def filtered_data_def GWP_filtered_def NPV_filtered_def
      bioethanol_filtered_def vanillin_filtered_def furfural_filtered_def
      pareto_front_def pareto_df_def data_frame_def upt_conv_Cons
      min_gwp_index_def max_npv_index_def argmin_def argmax_def
      pareto_GWP_def pareto_NPV_def iloc_def py_min_def py_max_def distances_def
      euclidean_double_example spec_distance_def knee_index_def sqrt_2500)

section \<open>Properties of the reported table\<close>

lemma list_index_first:
  "v \<in> set xs \<Longrightarrow> \<exists>i < length xs. list_index xs v = Inr i \<and> xs ! i = v \<and> (\<forall>j < i. xs ! j \<noteq> v)"
proof (induction xs)
  case Nil
  then show ?case by simp
next
  case (Cons x xs)
  show ?case
  proof (cases "x = v")
    case True
    then show ?thesis by simp
  next
    case False
    with Cons.prems have "v \<in> set xs" by simp
    from Cons.IH [OF this] obtain i where i: "i < length xs" "list_index xs v = Inr i"
      "xs ! i = v" "\<forall>j < i. xs ! j \<noteq> v"
      by blast
    have "\<forall>j < Suc i. (x # xs) ! j \<noteq> v"
      using False i(4) by (auto simp: nth_Cons split: nat.splits)
    with False i have "Suc i < length (x # xs) \<and> list_index (x # xs) v = Inr (Suc i) \<and>
      (x # xs) ! Suc i = v \<and> (\<forall>j < Suc i. (x # xs) ! j \<noteq> v)"
      by simp
    then show ?thesis by blast
  qed
qed

lemma optimal_indices_first:
  "set front \<subseteq> set pts \<Longrightarrow>
   \<exists>idxs. optimal_indices pts front = Inr idxs \<and> length idxs = length front \<and>
     (\<forall>k < length front. idxs ! k < length pts \<and> pts ! (idxs ! k) = front ! k \<and>
        (\<forall>j < idxs ! k. pts ! j \<noteq> front ! k))"
proof (induction front)
  case Nil
  then show ?case by simp
next
  case (Cons p front)
  from Cons.prems have "p \<in> set pts" "set front \<subseteq> set pts" by simp_all
  from list_index_first [OF this(1)] obtain i where i: "i < length pts" "list_index pts p = Inr i"
    "pts ! i = p" "\<forall>j < i. pts ! j \<noteq> p"
    by blast
  from Cons.IH [OF \<open>set front \<subseteq> set pts\<close>] obtain idxs where idxs:
    "optimal_indices pts front = Inr idxs" "length idxs = length front"
    "\<forall>k < length front. idxs ! k < length pts \<and> pts ! (idxs ! k) = front ! k \<and>
        (\<forall>j < idxs ! k. pts ! j \<noteq> front ! k)"
    by blast
  have "\<forall>k < length (p # front). (i # idxs) ! k < length pts \<and>
          pts ! ((i # idxs) ! k) = (p # front) ! k \<and>
          (\<forall>j < (i # idxs) ! k. pts ! j \<noteq> (p # front) ! k)"
  proof (intro allI impI)
    fix k assume "k < length (p # front)"
    then show "(i # idxs) ! k < length pts \<and> pts ! ((i # idxs) ! k) = (p # front) ! k \<and>
          (\<forall>j < (i # idxs) ! k. pts ! j \<noteq> (p # front) ! k)"
      using i idxs(3) by (cases k) simp_all
  qed
  with i(2) idxs(1,2) show ?case by simp
qed

lemma take_at_map:
  "\<forall>i \<in> set idxs. i < length column \<Longrightarrow> take_at column idxs = Inr (map ((!) column) idxs)"
  by (induction idxs) simp_all

lemma length_filtered [simp]:
  "length (GWP_filtered fd) = length fd" "length (NPV_filtered fd) = length fd"
  "length (bioethanol_filtered fd) = length fd" "length (vanillin_filtered fd) = length fd"
  "length (furfural_filtered fd) = length fd" "length (filtered_points fd) = length fd"
  by (simp_all add: GWP_filtered_def NPV_filtered_def bioethanol_filtered_def
      vanillin_filtered_def furfural_filtered_def filtered_points_def)

text \<open>
  C10 (allocation of value-equal scenarios): the notebook's table is built without an
  error; the percentages in the row of a front point are those of the first feasible
  scenario, in input order, whose (GWP, NPV) pair equals the front point's. Hence two
  front rows with equal pairs are equal, and the position of a scenario that repeats the
  pair of an earlier one is never among \<^verbatim>\<open>optimal_indices\<close>.
\<close>

theorem allocation_of_first_equal_point:
  assumes fd: "fd = filtered_data df" and pts: "pts = filtered_points fd"
    and front: "front = pareto_front pts"
  shows "\<exists>rows idxs. pareto_df df = Inr rows \<and> optimal_indices pts front = Inr idxs \<and>
           length rows = length front \<and> length idxs = length front \<and>
           (\<forall>k < length front.
              idxs ! k < length pts \<and> pts ! (idxs ! k) = front ! k \<and>
              (\<forall>j < idxs ! k. pts ! j \<noteq> front ! k) \<and>
              rows ! k = \<lparr>Total_GWP = fst (front ! k), Total_NPV = snd (front ! k),
                          Bioethanol_pct = bioethanol_filtered fd ! (idxs ! k),
                          Vanillin_pct = vanillin_filtered fd ! (idxs ! k),
                          Furfural_pct = furfural_filtered fd ! (idxs ! k)\<rparr>) \<and>
           (\<forall>k < length front. \<forall>k' < length front. front ! k = front ! k' \<longrightarrow> rows ! k = rows ! k') \<and>
           (\<forall>i j. i < j \<and> j < length pts \<and> pts ! i = pts ! j \<longrightarrow> j \<notin> set idxs)"
proof -
  have "set front \<subseteq> set pts"
    by (auto simp: front set_pareto_front)
  from optimal_indices_first [OF this] obtain idxs where idxs:
    "optimal_indices pts front = Inr idxs" "length idxs = length front"
    "\<forall>k < length front. idxs ! k < length pts \<and> pts ! (idxs ! k) = front ! k \<and>
        (\<forall>j < idxs ! k. pts ! j \<noteq> front ! k)"
    by blast
  have len: "length pts = length fd"
    by (simp add: pts)
  have inrange: "\<forall>i \<in> set idxs. i < length fd"
    using idxs(2,3) len by (auto simp: in_set_conv_nth)
  define rows where "rows = map (\<lambda>i. \<lparr>Total_GWP = pareto_GWP front ! i, Total_NPV = pareto_NPV front ! i,
      Bioethanol_pct = map ((!) (bioethanol_filtered fd)) idxs ! i,
      Vanillin_pct = map ((!) (vanillin_filtered fd)) idxs ! i,
      Furfural_pct = map ((!) (furfural_filtered fd)) idxs ! i\<rparr>) [0..<length front]"
  have df: "pareto_df df = Inr rows"
    using idxs(1,2) inrange
    by (simp add: pareto_df_def Let_def fd [symmetric] pts [symmetric] front [symmetric]
        take_at_map data_frame_def pareto_GWP_def pareto_NPV_def rows_def)
  have row: "rows ! k = \<lparr>Total_GWP = fst (front ! k), Total_NPV = snd (front ! k),
                          Bioethanol_pct = bioethanol_filtered fd ! (idxs ! k),
                          Vanillin_pct = vanillin_filtered fd ! (idxs ! k),
                          Furfural_pct = furfural_filtered fd ! (idxs ! k)\<rparr>"
    if "k < length front" for k
    using that idxs(2) by (simp add: rows_def pareto_GWP_def pareto_NPV_def)
  have same: "idxs ! k = idxs ! k'" if "k < length front" "k' < length front" "front ! k = front ! k'" for k k'
  proof -
    from idxs(3) that have a: "pts ! (idxs ! k) = front ! k" "\<forall>j < idxs ! k. pts ! j \<noteq> front ! k"
      and b: "pts ! (idxs ! k') = front ! k" "\<forall>j < idxs ! k'. pts ! j \<noteq> front ! k"
      by auto
    show ?thesis
    proof (rule ccontr)
      assume "idxs ! k \<noteq> idxs ! k'"
      then consider "idxs ! k < idxs ! k'" | "idxs ! k' < idxs ! k" by linarith
      then show False using a b by cases auto
    qed
  qed
  have rows_same: "rows ! k = rows ! k'"
    if "k < length front" "k' < length front" "front ! k = front ! k'" for k k'
    using that same [OF that] by (simp add: row)
  have never: "j \<notin> set idxs" if "i < j" "j < length pts" "pts ! i = pts ! j" for i j
  proof
    assume "j \<in> set idxs"
    then obtain k where k: "k < length front" "idxs ! k = j"
      using idxs(2) by (auto simp: in_set_conv_nth)
    with idxs(3) have "pts ! j = front ! k" "\<forall>j' < j. pts ! j' \<noteq> front ! k" by auto
    with that show False by auto
  qed
  have len_rows: "length rows = length front" by (simp add: rows_def)
  have each: "\<forall>k < length front.
              idxs ! k < length pts \<and> pts ! (idxs ! k) = front ! k \<and>
              (\<forall>j < idxs ! k. pts ! j \<noteq> front ! k) \<and>
              rows ! k = \<lparr>Total_GWP = fst (front ! k), Total_NPV = snd (front ! k),
                          Bioethanol_pct = bioethanol_filtered fd ! (idxs ! k),
                          Vanillin_pct = vanillin_filtered fd ! (idxs ! k),
                          Furfural_pct = furfural_filtered fd ! (idxs ! k)\<rparr>"
  proof (intro allI impI)
    fix k assume k: "k < length front"
    from idxs(3) k have "idxs ! k < length pts \<and> pts ! (idxs ! k) = front ! k \<and>
              (\<forall>j < idxs ! k. pts ! j \<noteq> front ! k)"
      by blast
    with row [OF k] show "idxs ! k < length pts \<and> pts ! (idxs ! k) = front ! k \<and>
              (\<forall>j < idxs ! k. pts ! j \<noteq> front ! k) \<and>
              rows ! k = \<lparr>Total_GWP = fst (front ! k), Total_NPV = snd (front ! k),
                          Bioethanol_pct = bioethanol_filtered fd ! (idxs ! k),
                          Vanillin_pct = vanillin_filtered fd ! (idxs ! k),
                          Furfural_pct = furfural_filtered fd ! (idxs ! k)\<rparr>"
      by (intro conjI) (elim conjE, assumption)+
  qed
  have equal_rows: "\<forall>k < length front. \<forall>k' < length front. front ! k = front ! k' \<longrightarrow> rows ! k = rows ! k'"
    using rows_same by blast
  have later: "\<forall>i j. i < j \<and> j < length pts \<and> pts ! i = pts ! j \<longrightarrow> j \<notin> set idxs"
    using never by blast
  from df idxs(1,2) len_rows each equal_rows later show ?thesis
    by (intro exI [of _ rows] exI [of _ idxs] conjI) (assumption+)
qed

theorem allocation_of_first_equal_point_witness:
  "pareto_df example_df =
     Inr [\<lparr>Total_GWP = -10, Total_NPV = 100, Bioethanol_pct = 50, Vanillin_pct = 30, Furfural_pct = 20\<rparr>,
          \<lparr>Total_GWP = -10, Total_NPV = 100, Bioethanol_pct = 50, Vanillin_pct = 30, Furfural_pct = 20\<rparr>] \<and>
   optimal_indices (filtered_points (filtered_data example_df))
     (pareto_front (filtered_points (filtered_data example_df))) = Inr [0, 0]"
  using allocation_of_first_equal_point [OF refl refl refl, of example_df]
  by (simp add: example_df_def pareto_df_def filtered_data_def filtered_points_def
      GWP_filtered_def NPV_filtered_def bioethanol_filtered_def vanillin_filtered_def
      furfural_filtered_def pareto_front_def data_frame_def pareto_GWP_def pareto_NPV_def
      upt_conv_Cons)

section \<open>Properties of the life-cycle assessment class\<close>

lemma calc_methods_keys:
  "keys_are_names s \<Longrightarrow> keys_are_names (snd (calc_methods eng FU_name FU_act amount_FU methods s))"
proof (induction methods arbitrary: s)
  case Nil
  then show ?case by simp
next
  case (Cons m ms)
  show ?case
  proof (cases "LCA_score eng (code FU_act) amount_FU m")
    case (Inl e)
    with Cons.prems show ?thesis by simp
  next
    case (Inr sc)
    have stored: "keys_are_names (s\<lparr>LCA_results_dict := (LCA_results_dict s)(Str FU_name \<mapsto> d)\<rparr>)" for d
      using Cons.prems by (auto simp: keys_are_names_def)
    show ?thesis
    proof (cases "top_processes_dict s")
      case None
      with Inr stored show ?thesis by (simp add: Let_def)
    next
      case (Some tops)
      have "keys_are_names (s\<lparr>LCA_results_dict := (LCA_results_dict s)(Str FU_name \<mapsto> d),
               top_processes_dict := t\<rparr>)" for d t
        using Cons.prems by (auto simp: keys_are_names_def)
      from Cons.IH [OF this] Inr Some show ?thesis
        by (simp add: Let_def)
    qed
  qed
qed

lemma calc_units_keys:
  "keys_are_names s \<Longrightarrow> keys_are_names (snd (calc_units eng db vp methods units s))"
proof (induction units arbitrary: s)
  case Nil
  then show ?case by simp
next
  case (Cons unit units)
  obtain FU_name FU_code where unit: "unit = (FU_name, FU_code)" by (cases unit)
  show ?case
  proof (cases "filter (\<lambda>act. code act = FU_code) db")
    case Nil
    with unit Cons.prems show ?thesis by simp
  next
    case (Cons FU_act acts)
    note found = this
    show ?thesis
    proof (cases "vp FU_name")
      case None
      with unit found Cons.prems show ?thesis by simp
    next
      case (Some amount_FU)
      obtain r s' where r: "calc_methods eng FU_name FU_act amount_FU methods s = (r, s')"
        by (cases "calc_methods eng FU_name FU_act amount_FU methods s")
      from calc_methods_keys [OF Cons.prems, of eng FU_name FU_act amount_FU methods] r
      have s': "keys_are_names s'" by simp
      show ?thesis
      proof (cases r)
        case None
        with unit found Some r Cons.IH [OF s'] show ?thesis by simp
      next
        case (Some e)
        with unit found \<open>vp FU_name = Some amount_FU\<close> r s' show ?thesis by simp
      qed
    qed
  qed
qed

lemma calc_lca_keys: "keys_are_names (snd (calc_lca eng s methods db codes vp calc_done_arg))"
proof -
  let ?s1 = "s\<lparr>FU_codes := Some codes, lcia_methods := Some methods, calc_done := Some calc_done_arg,
                 LCA_results_dict := Map.empty, top_processes_dict := Some Map.empty\<rparr>"
  have "keys_are_names ?s1" by (simp add: keys_are_names_def)
  from calc_units_keys [OF this, of eng db vp methods codes]
  show ?thesis
    by (auto simp: calc_lca_def Let_def keys_are_names_def split: prod.splits option.splits)
qed

lemma analyze_lca_keys: "keys_are_names s \<Longrightarrow> keys_are_names (snd (analyze_lca eng s impact n_top analysis_done_arg))"
  by (simp add: analyze_lca_def Let_def keys_are_names_def)

lemma reachable_keys: "reachable s \<Longrightarrow> keys_are_names s"
proof (induction rule: reachable.induct)
  case (new name)
  show ?case by (simp add: init_def keys_are_names_def)
next
  case (after_calc s eng methods db codes vanillin_production calc_done_arg)
  show ?case by (rule calc_lca_keys)
next
  case (after_analyze s eng impact n_top analysis_done_arg)
  from after_analyze.IH show ?case by (rule analyze_lca_keys)
qed

text \<open>
  With an impact method, a tuple, the assertion of \<^verbatim>\<open>analyze_lca\<close> fails on every
  object a program can hold, whether the method was evaluated or not: the keys it is
  looked up in are functional-unit names.
\<close>

lemma analyze_lca_rejects_every_method:
  assumes "reachable s"
  shows "analyze_lca eng s (Tup method) n_top analysis_done_arg =
           (Some AssertionError, s\<lparr>impact_of_interest := Some (Tup method), n_top_items := Some n_top\<rparr>)"
proof -
  from assms have "keys_are_names s" by (rule reachable_keys)
  then have "Tup method \<notin> dom (LCA_results_dict s)"
    by (auto simp: keys_are_names_def)
  then show ?thesis
    by (simp add: analyze_lca_def Let_def)
qed

lemma example_obj_results:
  "fst (calc_lca example_engine (init ''LCA_module'') [example_method] example_db
            [(''Vanillin 1% production'', ''ThisIsFU1'')]
            [''Vanillin 1% production'' \<mapsto> 2] False) = None"
  "LCA_results_dict example_obj (Str ''Vanillin 1% production'') = Some [example_method \<mapsto> 10]"
  "LCA_results_dict example_obj example_method = None"
  by (simp_all add: example_obj_def calc_lca_def init_def example_db_def example_engine_def
      example_method_def Let_def)

lemma calc_methods_dom:
  "dom (LCA_results_dict s)
     \<subseteq> dom (LCA_results_dict (snd (calc_methods eng FU_name FU_act amount_FU methods s)))"
proof (induction methods arbitrary: s)
  case Nil
  show ?case by simp
next
  case (Cons m ms)
  show ?case
  proof (cases "LCA_score eng (code FU_act) amount_FU m")
    case (Inl e)
    then show ?thesis by simp
  next
    case (Inr sc)
    show ?thesis
    proof (cases "top_processes_dict s")
      case None
      with Inr show ?thesis by (auto simp: Let_def)
    next
      case (Some tops)
      define s2 where "s2 = s\<lparr>LCA_results_dict := (LCA_results_dict s)(Str FU_name \<mapsto>
              (case LCA_results_dict s (Str FU_name) of None \<Rightarrow> Map.empty | Some d \<Rightarrow> d)(m \<mapsto> sc)),
            top_processes_dict := Some (tops(Str FU_name \<mapsto>
              (case tops (Str FU_name) of None \<Rightarrow> Map.empty | Some d \<Rightarrow> d)
                (m \<mapsto> annotated_top_processes eng (code FU_act) amount_FU m)))\<rparr>"
      have step: "calc_methods eng FU_name FU_act amount_FU (m # ms) s
          = calc_methods eng FU_name FU_act amount_FU ms s2"
        using Inr Some by (simp add: Let_def s2_def)
      have "dom (LCA_results_dict s) \<subseteq> dom (LCA_results_dict s2)"
        by (auto simp: s2_def)
      with Cons.IH [of s2] show ?thesis
        unfolding step by blast
    qed
  qed
qed

lemma calc_methods_adds_name:
  assumes "methods \<noteq> []" and "fst (calc_methods eng FU_name FU_act amount_FU methods s) = None"
  shows "Str FU_name \<in> dom (LCA_results_dict (snd (calc_methods eng FU_name FU_act amount_FU methods s)))"
proof -
  from assms(1) obtain m ms where methods: "methods = m # ms" by (cases methods) auto
  show ?thesis
  proof (cases "LCA_score eng (code FU_act) amount_FU m")
    case (Inl e)
    with assms(2) methods show ?thesis by simp
  next
    case (Inr sc)
    show ?thesis
    proof (cases "top_processes_dict s")
      case None
      with Inr assms(2) methods show ?thesis by (simp add: Let_def)
    next
      case (Some tops)
      define s2 where "s2 = s\<lparr>LCA_results_dict := (LCA_results_dict s)(Str FU_name \<mapsto>
              (case LCA_results_dict s (Str FU_name) of None \<Rightarrow> Map.empty | Some d \<Rightarrow> d)(m \<mapsto> sc)),
            top_processes_dict := Some (tops(Str FU_name \<mapsto>
              (case tops (Str FU_name) of None \<Rightarrow> Map.empty | Some d \<Rightarrow> d)
                (m \<mapsto> annotated_top_processes eng (code FU_act) amount_FU m)))\<rparr>"
      have step: "calc_methods eng FU_name FU_act amount_FU methods s
          = calc_methods eng FU_name FU_act amount_FU ms s2"
        using Inr Some methods by (simp add: Let_def s2_def)
      have "Str FU_name \<in> dom (LCA_results_dict s2)"
        by (simp add: s2_def)
      with calc_methods_dom [of s2 eng FU_name FU_act amount_FU ms] show ?thesis
        unfolding step by blast
    qed
  qed
qed

lemma calc_units_dom:
  "dom (LCA_results_dict s)
     \<subseteq> dom (LCA_results_dict (snd (calc_units eng db vp methods units s)))"
proof (induction units arbitrary: s)
  case Nil
  show ?case by simp
next
  case (Cons unit units)
  obtain FU_name FU_code where unit: "unit = (FU_name, FU_code)" by (cases unit)
  show ?case
  proof (cases "filter (\<lambda>act. code act = FU_code) db")
    case Nil
    with unit show ?thesis by simp
  next
    case (Cons FU_act acts)
    note found = this
    show ?thesis
    proof (cases "vp FU_name")
      case None
      with unit found show ?thesis by simp
    next
      case (Some amount_FU)
      obtain r s' where r: "calc_methods eng FU_name FU_act amount_FU methods s = (r, s')"
        by (cases "calc_methods eng FU_name FU_act amount_FU methods s")
      from calc_methods_dom [of s eng FU_name FU_act amount_FU methods] r
      have s': "dom (LCA_results_dict s) \<subseteq> dom (LCA_results_dict s')" by simp
      show ?thesis
      proof (cases r)
        case None
        with unit found Some r have "calc_units eng db vp methods (unit # units) s
            = calc_units eng db vp methods units s'"
          by simp
        with Cons.IH [of s'] s' show ?thesis by auto
      next
        case (Some e)
        with unit found \<open>vp FU_name = Some amount_FU\<close> r s' show ?thesis by simp
      qed
    qed
  qed
qed

lemma calc_units_names:
  assumes "methods \<noteq> []"
  shows "fst (calc_units eng db vp methods units s) = None \<Longrightarrow> (name, c) \<in> set units \<Longrightarrow>
     Str name \<in> dom (LCA_results_dict (snd (calc_units eng db vp methods units s)))"
proof (induction units arbitrary: s)
  case Nil
  then show ?case by simp
next
  case (Cons unit units)
  obtain FU_name FU_code where unit: "unit = (FU_name, FU_code)" by (cases unit)
  from Cons.prems(1) unit obtain FU_act acts where found: "filter (\<lambda>act. code act = FU_code) db = FU_act # acts"
    by (cases "filter (\<lambda>act. code act = FU_code) db") auto
  from Cons.prems(1) unit found obtain amount_FU where amount: "vp FU_name = Some amount_FU"
    by (cases "vp FU_name") auto
  obtain r s' where r: "calc_methods eng FU_name FU_act amount_FU methods s = (r, s')"
    by (cases "calc_methods eng FU_name FU_act amount_FU methods s")
  from Cons.prems(1) unit found amount r have none: "r = None"
    by (cases r) auto
  with unit found amount r have step: "calc_units eng db vp methods (unit # units) s
      = calc_units eng db vp methods units s'"
    by simp
  with Cons.prems(1) have rest: "fst (calc_units eng db vp methods units s') = None" by simp
  show ?case
  proof (cases "(name, c) = unit")
    case True
    with unit have "name = FU_name" by simp
    moreover from calc_methods_adds_name [OF assms, of eng FU_name FU_act amount_FU s] r none
    have "Str FU_name \<in> dom (LCA_results_dict s')" by simp
    ultimately show ?thesis
      using calc_units_dom [of s' eng db vp methods units] unfolding step by blast
  next
    case False
    with Cons.prems(2) have "(name, c) \<in> set units" by auto
    from Cons.IH [OF rest this] show ?thesis unfolding step .
  qed
qed


text \<open>
  C9 (fail fast): the specification has \<^verbatim>\<open>analyze_lca\<close> raise whenever its argument is
  not among the evaluated methods, and never go on with empty data. The code does not:
  its assertion, whose message is \<^verbatim>\<open>"This method is not in your LCIA method list!"\<close>,
  looks the argument up among the functional-unit names. After a \<^verbatim>\<open>calc_lca\<close> that returned, the name of
  any functional unit it evaluated, which is none of the methods, passes the assertion:
  the call returns, marks the analysis done and leaves an empty \<^verbatim>\<open>defaultdict\<close>.
\<close>

theorem analyze_lca_accepts_unit_name:
  assumes "calc_lca eng s0 methods db codes vp calc_done_arg = (None, s)"
    and "(name, c) \<in> set codes" and "methods \<noteq> []"
  shows "analyze_lca eng s (Str name) n_top analysis_done_arg =
           (None, s\<lparr>impact_of_interest := Some (Str name), n_top_items := Some n_top,
                     analysis_done := True,
                     techno_impact_results_grouped := Some (DefaultDictList Map.empty)\<rparr>)"
proof -
  let ?s1 = "s0\<lparr>FU_codes := Some codes, lcia_methods := Some methods, calc_done := Some calc_done_arg,
                 LCA_results_dict := Map.empty, top_processes_dict := Some Map.empty\<rparr>"
  obtain r s2 where units: "calc_units eng db vp methods codes ?s1 = (r, s2)"
    by (cases "calc_units eng db vp methods codes ?s1")
  from assms(1) units have r: "r = None" and s: "s = s2\<lparr>calc_done := Some True\<rparr>"
    by (cases r; simp add: calc_lca_def Let_def)+
  from calc_units_names [OF assms(3), of eng db vp codes ?s1 name c] units r assms(2)
  have "Str name \<in> dom (LCA_results_dict s2)" by simp
  then have "Str name \<in> dom (LCA_results_dict s)" by (simp add: s)
  then show ?thesis
    by (simp add: analyze_lca_def Let_def)
qed

theorem analyze_lca_accepts_unit_name_witness:
  "Str ''Vanillin 1% production'' \<notin> set [example_method] \<and>
   analyze_lca example_engine example_obj (Str ''Vanillin 1% production'') 5 False =
     (None, example_obj\<lparr>impact_of_interest := Some (Str ''Vanillin 1% production''),
               n_top_items := Some 5, analysis_done := True,
               techno_impact_results_grouped := Some (DefaultDictList Map.empty)\<rparr>)"
proof -
  have run: "calc_lca example_engine (init ''LCA_module'') [example_method] example_db
            [(''Vanillin 1% production'', ''ThisIsFU1'')]
            [''Vanillin 1% production'' \<mapsto> 2] False = (None, example_obj)"
    using example_obj_results(1) by (simp add: example_obj_def prod_eq_iff)
  have "Str ''Vanillin 1% production'' \<notin> set [example_method]"
    by (simp add: example_method_def)
  with analyze_lca_accepts_unit_name [OF run, of "''Vanillin 1% production''" "''ThisIsFU1''" 5 False]
  show ?thesis by simp
qed

text \<open>
  C8 (contribution aggregation): the specification has \<^verbatim>\<open>analyze_lca\<close> score the
  exchanges and sum the scores by group tag. The code never does: the call either
  fails its assertion or returns with an empty \<^verbatim>\<open>defaultdict\<close>, since the flag its
  loop tests has just been set.
\<close>

theorem analyze_lca_never_aggregates:
  "analyze_lca eng s impact n_top analysis_done_arg =
     (Some AssertionError, s\<lparr>impact_of_interest := Some impact, n_top_items := Some n_top\<rparr>) \<or>
   analyze_lca eng s impact n_top analysis_done_arg =
     (None, s\<lparr>impact_of_interest := Some impact, n_top_items := Some n_top,
               analysis_done := True,
               techno_impact_results_grouped := Some (DefaultDictList Map.empty)\<rparr>)"
  by (simp add: analyze_lca_def Let_def)

theorem analyze_lca_never_aggregates_witness:
  "analyze_lca example_engine example_obj example_method 5 False =
     (Some AssertionError, example_obj\<lparr>impact_of_interest := Some example_method, n_top_items := Some 5\<rparr>) \<and>
   analyze_lca example_engine example_obj (Str ''Vanillin 1% production'') 5 False =
     (None, example_obj\<lparr>impact_of_interest := Some (Str ''Vanillin 1% production''),
               n_top_items := Some 5, analysis_done := True,
               techno_impact_results_grouped := Some (DefaultDictList Map.empty)\<rparr>) \<and>
   spec_aggregate (\<lambda>act amt method. 5 * amt) example_method
     [\<lparr>input = ''electricity'', amount = 1, group_tag = ''energy''\<rparr>] ''energy'' = Some 5"
  using analyze_lca_never_aggregates [of example_engine example_obj example_method 5 False]
    analyze_lca_never_aggregates [of example_engine example_obj "Str ''Vanillin 1% production''" 5 False]
    example_obj_results(2,3)
  by (auto simp: analyze_lca_def Let_def spec_aggregate_def domIff)

end
